theory Spec2Isabelle
  imports Main "HOL-Library.Sublist" "HOL-Library.AList"
begin

section \<open>The service worker of the portfolio site (src/unnamed/part_003)\<close>

text \<open>
  The worker intercepts the page's requests, answers them from the Cache API or from the
  network, and replays queued form submissions. Everything outside the worker's own code
  is written as data: the network is a function from a request to the outcome of
  \<open>fetch\<close>, the cache storage is a list of named buckets in creation order, the
  object store of queued submissions is a list of records, and the three counters of the
  script are fields of the state. A write into the cache that the script starts without
  waiting for it is kept as pending until the platform carries it out.
\<close>

subsection \<open>Requests, responses and the network\<close>

text \<open>The fields of a \<open>Request\<close> that the worker reads.\<close>

record request =
  url :: string
  req_method :: string
  destination :: string

text \<open>
  A \<open>Response\<close>. \<open>new Response(body, init)\<close> has status 200 unless \<open>init\<close> gives
  one; \<open>response.ok\<close> is true for a status from 200 to 299.
\<close>

record response =
  status :: nat
  headers :: "(string \<times> string) list"
  body :: string

definition ok :: "response \<Rightarrow> bool" where
  "ok r = (200 \<le> status r \<and> status r \<le> 299)"

text \<open>
  \<open>fetch\<close> either rejects (no connectivity, unreachable host) or resolves with a
  response of any status. An awaited promise that resolves with \<open>undefined\<close> is
  \<open>None\<close> of \<open>response option\<close>.
\<close>

datatype fetch_result = NetworkError | Resolved response

type_synonym network = "request \<Rightarrow> fetch_result"

subsection \<open>Constants of the script\<close>

definition STATIC_CACHE :: string where
  "STATIC_CACHE = ''static-v2''"

definition DYNAMIC_CACHE :: string where
  "DYNAMIC_CACHE = ''dynamic-v2''"

definition STATIC_ASSETS :: "string list" where
  "STATIC_ASSETS =
     [''/'', ''/index.html'', ''/critical.css'', ''/styles.css'',
      ''/script-optimized.js'', ''/manifest.json'']"

definition EXTERNAL_RESOURCES :: "string list" where
  "EXTERNAL_RESOURCES =
     [''https://fonts.googleapis.com/css2?family=Inter:wght@300;400;500;600;700&display=swap'',
      ''https://fonts.gstatic.com/s/inter/v12/UcCO3FwrK3iLTeHuS_fvQtMwCp50KnMw2boKoduKmMEVuLyfAZ9hiA.woff2'']"

subsection \<open>Classification of a request URL\<close>

text \<open>
  \<open>String.prototype.includes\<close>: \<open>str_includes u s\<close> is \<open>u.includes(s)\<close>, true when
  \<open>s\<close> occurs in \<open>u\<close> as a contiguous run of characters.
\<close>

fun str_includes :: "string \<Rightarrow> string \<Rightarrow> bool" where
  "str_includes [] s = (s = [])"
| "str_includes (c # cs) s = (prefix s (c # cs) \<or> str_includes cs s)"

definition isStaticAsset :: "string \<Rightarrow> bool" where
  "isStaticAsset u =
     (list_ex (\<lambda>asset. str_includes u asset) STATIC_ASSETS \<or>
      str_includes u ''.css'' \<or>
      str_includes u ''.js'' \<or>
      str_includes u ''.html'')"

definition isExternalResource :: "string \<Rightarrow> bool" where
  "isExternalResource u =
     (str_includes u ''fonts.googleapis.com'' \<or>
      str_includes u ''fonts.gstatic.com'' \<or>
      str_includes u ''cdnjs.cloudflare.com'' \<or>
      str_includes u ''unsplash.com'')"

definition isAPIRequest :: "string \<Rightarrow> bool" where
  "isAPIRequest u =
     (str_includes u ''/api/'' \<or>
      str_includes u ''.json'' \<or>
      str_includes u ''sendgrid.com'')"

text \<open>
  The script has no function that names the class of a URL: the class is the branch of
  the fetch listener's chain of tests (lines 78 to 86) that the URL takes.
  \<open>classify\<close> is that chain with the class in place of the strategy call.
\<close>

datatype category = StaticAsset | ExternalResource | APIRequest | Other

definition classify :: "string \<Rightarrow> category" where
  "classify u =
     (if isStaticAsset u then StaticAsset
      else if isExternalResource u then ExternalResource
      else if isAPIRequest u then APIRequest
      else Other)"

subsection \<open>Cache storage\<close>

text \<open>
  A bucket maps the URL of a GET request to the stored response; the storage lists the
  buckets by name in creation order, which is the order \<open>caches.match\<close> searches
  them in. URLs are compared as strings: a path of the script and the URL it resolves
  to are the same key, and a fragment is not told apart from the rest of the URL.
  Storage operations themselves do not fail in this model (no quota error).
\<close>

type_synonym bucket = "(string \<times> response) list"

type_synonym cache_storage = "(string \<times> bucket) list"

text \<open>
  The three counters of the script, the cache storage, the object store, and the writes
  into the cache that the script has started and not awaited: \<open>cache.put\<close> returns
  a promise, and the strategies go on without it (lines 102, 119, 142).
\<close>

record stored_request =
  sid :: string
  surl :: string
  smethod :: string
  sheaders :: "(string \<times> string) list"
  sbody :: string

record sw_state =
  caches :: cache_storage
  pending :: "(string \<times> request \<times> response) list"
  requests :: "stored_request list"
  cacheHits :: nat
  cacheMisses :: nat
  networkRequests :: nat

text \<open>\<open>caches.open(name)\<close> creates the bucket when there is none of that name.\<close>

definition caches_open :: "string \<Rightarrow> cache_storage \<Rightarrow> cache_storage" where
  "caches_open name cs = (if name \<in> fst ` set cs then cs else cs @ [(name, [])])"

text \<open>The bucket of a name (empty when there is none).\<close>

definition bucket_of :: "string \<Rightarrow> cache_storage \<Rightarrow> bucket" where
  "bucket_of name cs = (case map_of cs name of None \<Rightarrow> [] | Some b \<Rightarrow> b)"

text \<open>
  \<open>cache.match(request)\<close> on one bucket: only a GET request matches an entry.
\<close>

definition cache_match :: "bucket \<Rightarrow> request \<Rightarrow> response option" where
  "cache_match b rq = (if req_method rq = ''GET'' then map_of b (url rq) else None)"

text \<open>
  What the platform refuses to store. A response with status 206 is refused, and so is
  one whose \<open>Vary\<close> header has the field \<open>*\<close>. Header names compare without
  regard to case, and the fields of a header value are separated by commas, with blanks
  around them.
\<close>

definition lower_case :: "char \<Rightarrow> char" where
  "lower_case c =
     (case map_of (zip ''ABCDEFGHIJKLMNOPQRSTUVWXYZ'' ''abcdefghijklmnopqrstuvwxyz'') c of
        None \<Rightarrow> c
      | Some l \<Rightarrow> l)"

fun split_on :: "char \<Rightarrow> string \<Rightarrow> string list" where
  "split_on d [] = [[]]"
| "split_on d (c # cs) =
     (if c = d then [] # split_on d cs
      else (case split_on d cs of [] \<Rightarrow> [[c]] | f # fs \<Rightarrow> (c # f) # fs))"

definition header_fields :: "string \<Rightarrow> string list" where
  "header_fields v = split_on CHR '','' (filter (\<lambda>c. c \<noteq> CHR '' '' \<and> c \<noteq> CHR 0x09) v)"

definition vary_star :: "response \<Rightarrow> bool" where
  "vary_star r =
     list_ex (\<lambda>(n, v). map lower_case n = ''vary'' \<and> List.member (header_fields v) ''*'')
       (headers r)"

definition storable :: "response \<Rightarrow> bool" where
  "storable r = (status r \<noteq> 206 \<and> \<not> vary_star r)"

text \<open>
  A write into the bucket of a name, when the platform carries it out: the entry of the
  request's URL is replaced or added. For a request that is not a GET, and for a
  response it refuses, the platform rejects the write and stores nothing.
\<close>

definition cache_store :: "string \<Rightarrow> request \<Rightarrow> response \<Rightarrow> cache_storage \<Rightarrow> cache_storage" where
  "cache_store name rq r cs =
     (if req_method rq = ''GET'' \<and> storable r
      then map (\<lambda>(n, b). if n = name then (n, AList.update (url rq) r b) else (n, b)) cs
      else cs)"

text \<open>
  \<open>cache.put(request, response)\<close> as the strategies call it, with the promise
  dropped: the write is started and joins the pending ones. A rejection of it is seen by
  nobody.
\<close>

definition cache_put :: "string \<Rightarrow> request \<Rightarrow> response \<Rightarrow> sw_state \<Rightarrow> sw_state" where
  "cache_put name rq r st = st\<lparr>pending := pending st @ [(name, rq, r)]\<rparr>"

text \<open>The pending writes are carried out, in the order they were started.\<close>

definition settle :: "sw_state \<Rightarrow> sw_state" where
  "settle st =
     st\<lparr>caches := fold (\<lambda>(name, rq, r). cache_store name rq r) (pending st) (caches st),
        pending := []\<rparr>"

text \<open>
  The platform's \<open>caches.match(request)\<close>: the first bucket, in creation order, with
  an entry for the request.
\<close>

fun originalCacheMatch :: "cache_storage \<Rightarrow> request \<Rightarrow> response option" where
  "originalCacheMatch [] rq = None"
| "originalCacheMatch ((n, b) # cs) rq =
     (case cache_match b rq of Some r \<Rightarrow> Some r | None \<Rightarrow> originalCacheMatch cs rq)"

text \<open>
  The script replaces \<open>caches.match\<close> by a wrapper that counts hits and misses
  (lines 381 to 390), and \<open>fetch\<close> by one that counts network requests (lines 393
  to 397). Every call of the strategies goes through the wrappers.
\<close>

definition caches_match :: "request \<Rightarrow> sw_state \<Rightarrow> response option \<times> sw_state" where
  "caches_match rq st =
     (case originalCacheMatch (caches st) rq of
        Some r \<Rightarrow> (Some r, st\<lparr>cacheHits := cacheHits st + 1\<rparr>)
      | None \<Rightarrow> (None, st\<lparr>cacheMisses := cacheMisses st + 1\<rparr>))"

definition fetch :: "('a \<Rightarrow> fetch_result) \<Rightarrow> 'a \<Rightarrow> sw_state \<Rightarrow> fetch_result \<times> sw_state" where
  "fetch net rq st = (net rq, st\<lparr>networkRequests := networkRequests st + 1\<rparr>)"

subsection \<open>Offline fallback and the three strategies\<close>

text \<open>
  \<open>getOfflineFallback\<close> (lines 175 to 188). For a document it returns the promise
  of \<open>caches.match('/index.html')\<close>, which resolves with \<open>undefined\<close> when the
  page is not cached.
\<close>

definition index_request :: request where
  "index_request = \<lparr>url = ''/index.html'', req_method = ''GET'', destination = []\<rparr>"

definition placeholder_svg :: string where
  \<open>placeholder_svg = ''<svg xmlns="http://www.w3.org/2000/svg" width="300" height="200"><rect width="100%" height="100%" fill="#ddd"/><text x="50%" y="50%" text-anchor="middle" dy=".3em" font-family="Arial" font-size="14" fill="#999">Image offline</text></svg>''\<close>

definition getOfflineFallback :: "request \<Rightarrow> sw_state \<Rightarrow> response option \<times> sw_state" where
  "getOfflineFallback rq st =
     (if destination rq = ''document'' then caches_match index_request st
      else if destination rq = ''image'' then
        (Some \<lparr>status = 200, headers = [(''Content-Type'', ''image/svg+xml'')],
               body = placeholder_svg\<rparr>, st)
      else (Some \<lparr>status = 503, headers = [], body = ''Offline''\<rparr>, st))"

text \<open>
  \<open>cacheFirst\<close> (lines 90 to 110). The bucket is opened with \<open>await\<close>; the
  write is started and the response returned at once.
\<close>

definition cacheFirst :: "network \<Rightarrow> request \<Rightarrow> sw_state \<Rightarrow> response option \<times> sw_state" where
  "cacheFirst net rq st =
     (case caches_match rq st of
        (Some cachedResponse, st1) \<Rightarrow> (Some cachedResponse, st1)
      | (None, st1) \<Rightarrow>
          (case fetch net rq st1 of
             (Resolved networkResponse, st2) \<Rightarrow>
               (Some networkResponse,
                if ok networkResponse
                then cache_put STATIC_CACHE rq networkResponse
                       (st2\<lparr>caches := caches_open STATIC_CACHE (caches st2)\<rparr>)
                else st2)
           | (NetworkError, st2) \<Rightarrow> getOfflineFallback rq st2))"

text \<open>\<open>networkFirst\<close> (lines 113 to 133).\<close>

definition networkFirst :: "network \<Rightarrow> request \<Rightarrow> sw_state \<Rightarrow> response option \<times> sw_state" where
  "networkFirst net rq st =
     (case fetch net rq st of
        (Resolved networkResponse, st1) \<Rightarrow>
          (Some networkResponse,
           if ok networkResponse
           then cache_put DYNAMIC_CACHE rq networkResponse
                  (st1\<lparr>caches := caches_open DYNAMIC_CACHE (caches st1)\<rparr>)
           else st1)
      | (NetworkError, st1) \<Rightarrow>
          (case caches_match rq st1 of
             (Some cachedResponse, st2) \<Rightarrow> (Some cachedResponse, st2)
           | (None, st2) \<Rightarrow> getOfflineFallback rq st2))"

text \<open>
  \<open>staleWhileRevalidate\<close> (lines 136 to 151). The lookup is \<open>cache.match\<close> on the
  dynamic bucket alone and is not counted. The value returned is
  \<open>cachedResponse || fetchPromise\<close>; the state returned is the one after the fetch
  that was started has settled, whether or not the caller waited for it, with the write
  that the fetch started still pending.
\<close>

definition staleWhileRevalidate :: "network \<Rightarrow> request \<Rightarrow> sw_state \<Rightarrow> response option \<times> sw_state" where
  "staleWhileRevalidate net rq st =
     (let st0 = st\<lparr>caches := caches_open DYNAMIC_CACHE (caches st)\<rparr>;
          cachedResponse = cache_match (bucket_of DYNAMIC_CACHE (caches st0)) rq;
          fetchPromise =
            (case fetch net rq st0 of
               (Resolved networkResponse, st1) \<Rightarrow>
                 (Some networkResponse,
                  if ok networkResponse
                  then cache_put DYNAMIC_CACHE rq networkResponse st1
                  else st1)
             | (NetworkError, st1) \<Rightarrow> (cachedResponse, st1))
      in (case cachedResponse of
            Some c \<Rightarrow> (Some c, snd fetchPromise)
          | None \<Rightarrow> fetchPromise))"

subsection \<open>The fetch listener\<close>

text \<open>
  The listener (lines 68 to 87). \<open>None\<close> is a return without \<open>respondWith\<close>: the
  request goes on to the network as if there were no worker.
\<close>

definition fetch_listener ::
  "network \<Rightarrow> request \<Rightarrow> sw_state \<Rightarrow> (response option \<times> sw_state) option" where
  "fetch_listener net rq st =
     (if req_method rq \<noteq> ''GET'' then None
      else if isStaticAsset (url rq) then Some (cacheFirst net rq st)
      else if isExternalResource (url rq) then Some (staleWhileRevalidate net rq st)
      else if isAPIRequest (url rq) then Some (networkFirst net rq st)
      else Some (cacheFirst net rq st))"

subsection \<open>Replay of queued form submissions\<close>

text \<open>
  The object store \<open>requests\<close> has key path \<open>id\<close>: \<open>getStoredRequests\<close>
  reads every entry, \<open>removeStoredRequest\<close> deletes the entry of an id (lines 221
  to 260).
\<close>

definition getStoredRequests :: "sw_state \<Rightarrow> stored_request list" where
  "getStoredRequests st = requests st"

definition removeStoredRequest :: "string \<Rightarrow> sw_state \<Rightarrow> sw_state" where
  "removeStoredRequest i st = st\<lparr>requests := filter (\<lambda>r. sid r \<noteq> i) (requests st)\<rparr>"

text \<open>
  \<open>syncContactForm\<close> (lines 197 to 218). The loop runs over the entries read at
  the start. The network is asked with the entry's URL, method, headers and body, so here
  it is a function of the entry. A \<open>fetch\<close> that resolves, with any status, is
  followed by the removal; one that rejects is caught inside the loop.
\<close>

fun sync_loop ::
  "(stored_request \<Rightarrow> fetch_result) \<Rightarrow> stored_request list \<Rightarrow> sw_state \<Rightarrow> sw_state" where
  "sync_loop net [] st = st"
| "sync_loop net (request # rest) st =
     (case fetch net request st of
        (Resolved _, st1) \<Rightarrow> sync_loop net rest (removeStoredRequest (sid request) st1)
      | (NetworkError, st1) \<Rightarrow> sync_loop net rest st1)"

definition syncContactForm :: "(stored_request \<Rightarrow> fetch_result) \<Rightarrow> sw_state \<Rightarrow> sw_state" where
  "syncContactForm net st = sync_loop net (getStoredRequests st) st"

subsection \<open>Activation and installation\<close>

text \<open>What a lifecycle handler asks of the platform, in the order it asks.\<close>

datatype effect = CachesDelete string | ClientsClaim | SkipWaiting

definition caches_delete :: "string \<Rightarrow> cache_storage \<Rightarrow> cache_storage" where
  "caches_delete name cs = filter (\<lambda>(n, b). n \<noteq> name) cs"

text \<open>
  The activate listener (lines 48 to 65): every bucket name that is neither
  \<open>STATIC_CACHE\<close> nor \<open>DYNAMIC_CACHE\<close> is deleted, and when all the deletions
  have settled the worker claims the clients.
\<close>

definition activate :: "cache_storage \<Rightarrow> cache_storage \<times> effect list" where
  "activate cs =
     (let cacheNames = map fst cs;
          old = filter (\<lambda>cacheName. cacheName \<noteq> STATIC_CACHE \<and> cacheName \<noteq> DYNAMIC_CACHE)
                  cacheNames
      in (fold caches_delete old cs, map CachesDelete old @ [ClientsClaim]))"

text \<open>
  \<open>cache.addAll(urls)\<close> fetches every URL with a GET request and stores the
  responses only when every fetch resolved with an ok status and a response the
  platform does not refuse; otherwise it rejects and stores nothing. The install
  listener waits for it.
\<close>

definition url_request :: "string \<Rightarrow> request" where
  "url_request u = \<lparr>url = u, req_method = ''GET'', destination = []\<rparr>"

definition reachable :: "network \<Rightarrow> string \<Rightarrow> bool" where
  "reachable net u =
     (case net (url_request u) of Resolved r \<Rightarrow> ok r \<and> storable r | NetworkError \<Rightarrow> False)"

fun put_all :: "network \<Rightarrow> string \<Rightarrow> string list \<Rightarrow> cache_storage \<Rightarrow> cache_storage" where
  "put_all net name [] cs = cs"
| "put_all net name (u # us) cs =
     (case net (url_request u) of
        Resolved r \<Rightarrow> put_all net name us (cache_store name (url_request u) r cs)
      | NetworkError \<Rightarrow> put_all net name us cs)"

definition cache_addAll ::
  "network \<Rightarrow> string \<Rightarrow> string list \<Rightarrow> cache_storage \<Rightarrow> bool \<times> cache_storage" where
  "cache_addAll net name us cs =
     (if list_all (reachable net) us then (True, put_all net name us cs) else (False, cs))"

text \<open>
  The install listener (lines 30 to 45): both buckets are opened and filled, and
  \<open>skipWaiting\<close> is called only when both \<open>addAll\<close> calls succeeded. The result
  is the storage, whether the promise given to \<open>waitUntil\<close> was fulfilled, and the
  effects asked for. The two \<open>addAll\<close> calls run side by side on different
  buckets, and neither is undone when the other fails.
\<close>

definition install :: "network \<Rightarrow> cache_storage \<Rightarrow> cache_storage \<times> bool \<times> effect list" where
  "install net cs =
     (case cache_addAll net STATIC_CACHE STATIC_ASSETS (caches_open STATIC_CACHE cs) of
        (ok1, cs1) \<Rightarrow>
          (case cache_addAll net DYNAMIC_CACHE EXTERNAL_RESOURCES (caches_open DYNAMIC_CACHE cs1) of
             (ok2, cs2) \<Rightarrow> (cs2, ok1 \<and> ok2, if ok1 \<and> ok2 then [SkipWaiting] else [])))"

text \<open>
  The platform's side of the lifecycle, for one registration: the version that is
  waiting and the version that is active. An install whose \<open>waitUntil\<close> promise
  was rejected discards the new worker; one that was fulfilled makes it the waiting
  worker, and \<open>skipWaiting\<close> activates it at once, which runs its activate
  listener.
\<close>

record registration =
  waiting :: "string option"
  active :: "string option"

definition install_event ::
  "network \<Rightarrow> string \<Rightarrow> registration \<Rightarrow> cache_storage \<Rightarrow> registration \<times> cache_storage" where
  "install_event net version reg cs =
     (case install net cs of
        (cs', fulfilled, effects) \<Rightarrow>
          if fulfilled
          then (if List.member effects SkipWaiting
                then (reg\<lparr>waiting := None, active := Some version\<rparr>, fst (activate cs'))
                else (reg\<lparr>waiting := Some version\<rparr>, cs'))
          else (reg, cs'))"

subsection \<open>Sample inputs\<close>

text \<open>A worker that has just started, with no bucket and an empty object store.\<close>

definition empty_state :: sw_state where
  "empty_state =
     \<lparr>caches = [], pending = [], requests = [], cacheHits = 0, cacheMisses = 0,
      networkRequests = 0\<rparr>"

definition ok_response :: response where
  "ok_response = \<lparr>status = 200, headers = [], body = ''fresh''\<rparr>"

definition error_response :: response where
  "error_response = \<lparr>status = 500, headers = [], body = ''Internal Server Error''\<rparr>"


definition vary_response :: response where
  "vary_response = \<lparr>status = 200, headers = [(''Vary'', ''Accept, *'')], body = ''fresh''\<rparr>"

definition not_found_response :: response where
  "not_found_response = \<lparr>status = 404, headers = [], body = ''Not Found''\<rparr>"

definition cached_response :: response where
  "cached_response = \<lparr>status = 200, headers = [], body = ''stored earlier''\<rparr>"

text \<open>A network that answers every request alike, and one with no connectivity.\<close>

definition online :: "response \<Rightarrow> 'a \<Rightarrow> fetch_result" where
  "online r = (\<lambda>_. Resolved r)"

definition offline :: "'a \<Rightarrow> fetch_result" where
  "offline = (\<lambda>_. NetworkError)"

text \<open>A network on which everything but \<open>/manifest.json\<close> is found.\<close>

definition missing_manifest :: network where
  "missing_manifest rq =
     (if url rq = ''/manifest.json'' then Resolved not_found_response
      else Resolved ok_response)"

text \<open>The first entry of \<open>EXTERNAL_RESOURCES\<close>, asked for by a style sheet link.\<close>

definition fonts_request :: request where
  "fonts_request =
     \<lparr>url = ''https://fonts.googleapis.com/css2?family=Inter:wght@300;400;500;600;700&display=swap'',
      req_method = ''GET'', destination = ''style''\<rparr>"

definition api_request :: request where
  "api_request =
     \<lparr>url = ''https://example.org/api/visits'', req_method = ''GET'', destination = []\<rparr>"

definition page_request :: request where
  "page_request =
     \<lparr>url = ''https://example.org/about'', req_method = ''GET'', destination = ''document''\<rparr>"

definition image_request :: request where
  "image_request =
     \<lparr>url = ''https://example.org/photo.png'', req_method = ''GET'', destination = ''image''\<rparr>"

text \<open>A state whose dynamic bucket holds an earlier answer to \<open>api_request\<close>.\<close>

definition warm_state :: sw_state where
  "warm_state =
     empty_state\<lparr>caches := [(DYNAMIC_CACHE, [(''https://example.org/api/visits'', cached_response)])]\<rparr>"

text \<open>Two queued submissions.\<close>

definition submission_abc :: stored_request where
  "submission_abc =
     \<lparr>sid = ''abc'', surl = ''/contact'', smethod = ''POST'', sheaders = [], sbody = ''a=1''\<rparr>"

definition submission_def :: stored_request where
  "submission_def =
     \<lparr>sid = ''def'', surl = ''/contact'', smethod = ''POST'', sheaders = [], sbody = ''a=2''\<rparr>"

text \<open>
  A state with both submissions queued, and a network on which the replay of
  \<open>abc\<close> fails and every other one succeeds.
\<close>

definition queued_state :: sw_state where
  "queued_state = empty_state\<lparr>requests := [submission_abc, submission_def]\<rparr>"

definition flaky :: "stored_request \<Rightarrow> fetch_result" where
  "flaky rq = (if sid rq = ''abc'' then NetworkError else Resolved ok_response)"

text \<open>
  The storage an earlier version left behind, with the current version's buckets among
  its own, and a registration on which that version is active.
\<close>

definition old_storage :: cache_storage where
  "old_storage =
     [(''static-v1'', [(''/index.html'', cached_response)]),
      (STATIC_CACHE, [(''/index.html'', ok_response)]),
      (''william-portfolio-v1'', []),
      (DYNAMIC_CACHE, [])]"

definition old_registration :: registration where
  "old_registration = \<lparr>waiting = None, active = Some ''v1''\<rparr>"

section \<open>Properties\<close>

subsection \<open>Substring tests\<close>

lemma str_includes_sublist: "str_includes u s \<longleftrightarrow> sublist s u"
  by (induction u) (auto simp: sublist_Cons_right)

lemma slash_isStaticAsset: "CHR ''/'' \<in> set u \<Longrightarrow> isStaticAsset u"
proof -
  assume "CHR ''/'' \<in> set u"
  then obtain ps ss where "u = ps @ [CHR ''/''] @ ss"
    by (auto simp: in_set_conv_decomp)
  then have "sublist ''/'' u"
    unfolding sublist_def by blast
  then show ?thesis
    by (simp add: isStaticAsset_def STATIC_ASSETS_def str_includes_sublist)
qed

lemma json_isStaticAsset: "str_includes u ''.json'' \<Longrightarrow> isStaticAsset u"
proof -
  assume "str_includes u ''.json''"
  then have "sublist (''.js'' @ ''on'') u" by (simp add: str_includes_sublist)
  then have "sublist ''.js'' u" unfolding sublist_def by (metis append.assoc)
  then show ?thesis by (simp add: isStaticAsset_def str_includes_sublist)
qed

subsection \<open>The cache storage\<close>

lemma names_caches_open: "name \<in> fst ` set (caches_open name cs)"
  by (simp add: caches_open_def)

lemma map_fst_cache_store: "map fst (cache_store n rq r cs) = map fst cs"
  by (induction cs) (auto simp: cache_store_def)

lemma names_cache_store: "fst ` set (cache_store n rq r cs) = fst ` set cs"
  using map_fst_cache_store [of n rq r cs] by (metis set_map)

lemma cache_store_refused: "\<not> storable r \<Longrightarrow> cache_store n rq r cs = cs"
  by (simp add: cache_store_def)

lemma bucket_of_caches_open: "bucket_of name (caches_open n cs) = bucket_of name cs"
proof (cases "map_of cs name")
  case None
  then show ?thesis
    by (simp add: bucket_of_def caches_open_def map_add_def)
next
  case (Some b)
  then show ?thesis
    by (simp add: bucket_of_def caches_open_def map_add_def)
qed

lemma bucket_of_cache_store:
  "req_method rq = ''GET'' \<Longrightarrow> storable r \<Longrightarrow> name \<in> fst ` set cs \<Longrightarrow>
   bucket_of name (cache_store name rq r cs) = AList.update (url rq) r (bucket_of name cs)"
  by (induction cs) (auto simp: bucket_of_def cache_store_def)

lemma bucket_of_cache_store_other:
  "n \<noteq> name \<Longrightarrow> bucket_of name (cache_store n rq r cs) = bucket_of name cs"
  by (induction cs) (auto simp: bucket_of_def cache_store_def)

lemma cache_match_stored:
  "req_method rq = ''GET'' \<Longrightarrow> storable r \<Longrightarrow> name \<in> fst ` set cs \<Longrightarrow>
   cache_match (bucket_of name (cache_store name rq r cs)) rq = Some r"
  by (simp add: bucket_of_cache_store cache_match_def update_conv')





subsection \<open>Pending writes\<close>

lemma settle_cache_put:
  "settle (cache_put n rq r st) =
     (settle st)\<lparr>caches := cache_store n rq r (caches (settle st))\<rparr>"
  by (simp add: settle_def cache_put_def)

lemma settle_nothing_pending: "pending st = [] \<Longrightarrow> settle st = st"
  by (simp add: settle_def)

lemma names_fold_store:
  "fst ` set (fold (\<lambda>(name, rq, r). cache_store name rq r) ws cs) = fst ` set cs"
proof (induction ws arbitrary: cs)
  case Nil
  then show ?case by simp
next
  case (Cons w ws)
  obtain n rq r where w: "w = (n, rq, r)" by (cases w)
  show ?case
    by (simp add: w Cons.IH names_cache_store)
qed

lemma names_settle: "fst ` set (caches (settle st)) = fst ` set (caches st)"
  by (simp add: settle_def names_fold_store)

lemma settle_counters:
  "cacheHits (settle st) = cacheHits st" "cacheMisses (settle st) = cacheMisses st"
  "networkRequests (settle st) = networkRequests st" "requests (settle st) = requests st"
  "pending (settle st) = []"
  by (simp_all add: settle_def)

lemma getOfflineFallback_keeps:
  "caches (snd (getOfflineFallback rq st)) = caches st \<and>
   pending (snd (getOfflineFallback rq st)) = pending st \<and>
   networkRequests (snd (getOfflineFallback rq st)) = networkRequests st \<and>
   requests (snd (getOfflineFallback rq st)) = requests st"
  by (simp add: getOfflineFallback_def caches_match_def split: option.splits)

subsection \<open>The sample inputs\<close>


lemma empty_match: "originalCacheMatch (caches empty_state) rq = None"
  by (simp add: empty_state_def)



lemma ok_ok_response: "ok ok_response"
  by (simp add: ok_def ok_response_def)

lemma storable_ok_response: "storable ok_response"
  by (simp add: storable_def vary_star_def ok_response_def)

lemma not_ok_error_response: "\<not> ok error_response"
  by (simp add: ok_def error_response_def)


lemma ok_vary_response: "ok vary_response" "\<not> storable vary_response"
  by (simp_all add: ok_def storable_def vary_star_def vary_response_def header_fields_def
      lower_case_def)

lemma online_resolved: "online r x = Resolved r"
  by (simp add: online_def)

lemma offline_error: "offline x = NetworkError"
  by (simp add: offline_def)

subsection \<open>The strategies, case by case\<close>

lemma cacheFirst_hit:
  "originalCacheMatch (caches st) rq = Some c \<Longrightarrow>
   cacheFirst net rq st = (Some c, st\<lparr>cacheHits := cacheHits st + 1\<rparr>)"
  by (simp add: cacheFirst_def caches_match_def)

lemma cacheFirst_miss_ok:
  "originalCacheMatch (caches st) rq = None \<Longrightarrow> net rq = Resolved r \<Longrightarrow> ok r \<Longrightarrow>
   cacheFirst net rq st =
     (Some r, st\<lparr>cacheMisses := cacheMisses st + 1, networkRequests := networkRequests st + 1,
                 caches := caches_open STATIC_CACHE (caches st),
                 pending := pending st @ [(STATIC_CACHE, rq, r)]\<rparr>)"
  by (simp add: cacheFirst_def caches_match_def fetch_def cache_put_def)

lemma cacheFirst_miss_not_ok:
  "originalCacheMatch (caches st) rq = None \<Longrightarrow> net rq = Resolved r \<Longrightarrow> \<not> ok r \<Longrightarrow>
   cacheFirst net rq st =
     (Some r, st\<lparr>cacheMisses := cacheMisses st + 1, networkRequests := networkRequests st + 1\<rparr>)"
  by (simp add: cacheFirst_def caches_match_def fetch_def)

lemma cacheFirst_miss_error:
  "originalCacheMatch (caches st) rq = None \<Longrightarrow> net rq = NetworkError \<Longrightarrow>
   cacheFirst net rq st =
     getOfflineFallback rq
       (st\<lparr>cacheMisses := cacheMisses st + 1, networkRequests := networkRequests st + 1\<rparr>)"
  by (simp add: cacheFirst_def caches_match_def fetch_def)

lemma networkFirst_ok:
  "net rq = Resolved r \<Longrightarrow> ok r \<Longrightarrow>
   networkFirst net rq st =
     (Some r, st\<lparr>networkRequests := networkRequests st + 1,
                 caches := caches_open DYNAMIC_CACHE (caches st),
                 pending := pending st @ [(DYNAMIC_CACHE, rq, r)]\<rparr>)"
  by (simp add: networkFirst_def fetch_def cache_put_def)

lemma networkFirst_not_ok:
  "net rq = Resolved r \<Longrightarrow> \<not> ok r \<Longrightarrow>
   networkFirst net rq st = (Some r, st\<lparr>networkRequests := networkRequests st + 1\<rparr>)"
  by (simp add: networkFirst_def fetch_def)

lemma networkFirst_error_hit:
  "net rq = NetworkError \<Longrightarrow> originalCacheMatch (caches st) rq = Some c \<Longrightarrow>
   networkFirst net rq st =
     (Some c, st\<lparr>networkRequests := networkRequests st + 1, cacheHits := cacheHits st + 1\<rparr>)"
  by (simp add: networkFirst_def fetch_def caches_match_def)

lemma networkFirst_error_miss:
  "net rq = NetworkError \<Longrightarrow> originalCacheMatch (caches st) rq = None \<Longrightarrow>
   networkFirst net rq st =
     getOfflineFallback rq
       (st\<lparr>networkRequests := networkRequests st + 1, cacheMisses := cacheMisses st + 1\<rparr>)"
  by (simp add: networkFirst_def fetch_def caches_match_def)

subsection \<open>Classification and dispatch\<close>

lemma fetch_listener_classify:
  "fetch_listener net rq st =
     (if req_method rq \<noteq> ''GET'' then None
      else (case classify (url rq) of
              StaticAsset \<Rightarrow> Some (cacheFirst net rq st)
            | ExternalResource \<Rightarrow> Some (staleWhileRevalidate net rq st)
            | APIRequest \<Rightarrow> Some (networkFirst net rq st)
            | Other \<Rightarrow> Some (cacheFirst net rq st)))"
  by (simp add: fetch_listener_def classify_def)

lemma fetch_listener_slash:
  "req_method rq = ''GET'' \<Longrightarrow> CHR ''/'' \<in> set (url rq) \<Longrightarrow>
   fetch_listener net rq st = Some (cacheFirst net rq st)"
  by (simp add: fetch_listener_def slash_isStaticAsset)

text \<open>
  C1 (dispatch by category; a request that is not a GET is not intercepted). The
  listener leaves every request that is not a GET alone and takes the first branch whose
  test holds (\<open>fetch_listener_classify\<close>). The first test, \<open>isStaticAsset\<close>, holds
  of every URL with a slash in it, since \<open>'/'\<close> is an entry of
  \<open>STATIC_ASSETS\<close> and entries are looked for anywhere in the URL
  (\<open>fetch_listener_slash\<close>). So a GET for the first entry of
  \<open>EXTERNAL_RESOURCES\<close>, whose host is on the list of external hosts, is answered
  by cache-first, which opens the static bucket and starts a write into it; when the
  write has been carried out the response is in the static bucket, where
  stale-while-revalidate would have put it in the dynamic bucket.
\<close>

theorem fetch_listener_external_resource:
  "isExternalResource (url fonts_request) \<and>
   fetch_listener (online ok_response) fonts_request empty_state =
     Some (Some ok_response,
           empty_state\<lparr>caches := [(STATIC_CACHE, [])],
                       pending := [(STATIC_CACHE, fonts_request, ok_response)],
                       cacheMisses := 1, networkRequests := 1\<rparr>) \<and>
   settle (empty_state\<lparr>caches := [(STATIC_CACHE, [])],
                       pending := [(STATIC_CACHE, fonts_request, ok_response)],
                       cacheMisses := 1, networkRequests := 1\<rparr>) =
     empty_state\<lparr>caches := [(STATIC_CACHE, [(url fonts_request, ok_response)])],
                 cacheMisses := 1, networkRequests := 1\<rparr> \<and>
   staleWhileRevalidate (online ok_response) fonts_request empty_state =
     (Some ok_response,
      empty_state\<lparr>caches := [(DYNAMIC_CACHE, [])],
                  pending := [(DYNAMIC_CACHE, fonts_request, ok_response)],
                  networkRequests := 1\<rparr>) \<and>
   settle (empty_state\<lparr>caches := [(DYNAMIC_CACHE, [])],
                       pending := [(DYNAMIC_CACHE, fonts_request, ok_response)],
                       networkRequests := 1\<rparr>) =
     empty_state\<lparr>caches := [(DYNAMIC_CACHE, [(url fonts_request, ok_response)])],
                 networkRequests := 1\<rparr>"
proof -
  have ext: "isExternalResource (url fonts_request)"
    by (simp add: isExternalResource_def fonts_request_def)
  have stat: "isStaticAsset (url fonts_request)"
    by (rule slash_isStaticAsset) (simp add: fonts_request_def)
  have get: "req_method fonts_request = ''GET''"
    by (simp add: fonts_request_def)
  have "cacheFirst (online ok_response) fonts_request empty_state =
     (Some ok_response,
      empty_state\<lparr>cacheMisses := cacheMisses empty_state + 1,
                  networkRequests := networkRequests empty_state + 1,
                  caches := caches_open STATIC_CACHE (caches empty_state),
                  pending := pending empty_state @ [(STATIC_CACHE, fonts_request, ok_response)]\<rparr>)"
    by (rule cacheFirst_miss_ok [where net = "online ok_response", OF empty_match online_resolved
          ok_ok_response])
  then have cf: "cacheFirst (online ok_response) fonts_request empty_state =
     (Some ok_response,
           empty_state\<lparr>caches := [(STATIC_CACHE, [])],
                       pending := [(STATIC_CACHE, fonts_request, ok_response)],
                       cacheMisses := 1, networkRequests := 1\<rparr>)"
    by (simp add: empty_state_def caches_open_def)
  have s1: "settle (empty_state\<lparr>caches := [(STATIC_CACHE, [])],
                       pending := [(STATIC_CACHE, fonts_request, ok_response)],
                       cacheMisses := 1, networkRequests := 1\<rparr>) =
     empty_state\<lparr>caches := [(STATIC_CACHE, [(url fonts_request, ok_response)])],
                 cacheMisses := 1, networkRequests := 1\<rparr>"
    by (simp add: settle_def cache_store_def get storable_ok_response empty_state_def)
  have swr: "staleWhileRevalidate (online ok_response) fonts_request empty_state =
     (Some ok_response,
      empty_state\<lparr>caches := [(DYNAMIC_CACHE, [])],
                  pending := [(DYNAMIC_CACHE, fonts_request, ok_response)],
                  networkRequests := 1\<rparr>)"
    by (simp add: staleWhileRevalidate_def cache_match_def bucket_of_def fetch_def online_def
        empty_state_def ok_ok_response caches_open_def cache_put_def get)
  have s2: "settle (empty_state\<lparr>caches := [(DYNAMIC_CACHE, [])],
                       pending := [(DYNAMIC_CACHE, fonts_request, ok_response)],
                       networkRequests := 1\<rparr>) =
     empty_state\<lparr>caches := [(DYNAMIC_CACHE, [(url fonts_request, ok_response)])],
                 networkRequests := 1\<rparr>"
    by (simp add: settle_def cache_store_def get storable_ok_response empty_state_def)
  have fl: "fetch_listener (online ok_response) fonts_request empty_state =
     Some (cacheFirst (online ok_response) fonts_request empty_state)"
    using stat get by (simp add: fetch_listener_def)
  show ?thesis
    by (intro conjI) (rule ext s1 swr s2 | simp only: fl cf)+
qed

text \<open>
  C7 (classification yields exactly one of four classes and is a function of the URL).
  The class of a URL is the first of the three tests that holds, or \<open>Other\<close> when
  none does: each class is characterised by the tests, the four conditions exclude each
  other and cover every URL, and the class depends on the URL alone.
\<close>

theorem classify_partition:
  "(classify u = StaticAsset \<longleftrightarrow> isStaticAsset u) \<and>
   (classify u = ExternalResource \<longleftrightarrow> \<not> isStaticAsset u \<and> isExternalResource u) \<and>
   (classify u = APIRequest \<longleftrightarrow>
      \<not> isStaticAsset u \<and> \<not> isExternalResource u \<and> isAPIRequest u) \<and>
   (classify u = Other \<longleftrightarrow>
      \<not> isStaticAsset u \<and> \<not> isExternalResource u \<and> \<not> isAPIRequest u) \<and>
   (\<exists>!c. classify u = c) \<and>
   classify u \<in> {StaticAsset, ExternalResource, APIRequest, Other}"
  by (simp add: classify_def)

theorem classify_partition_witness:
  "classify ''/styles.css'' = StaticAsset \<and>
   classify ''fonts.gstatic.com'' = ExternalResource \<and>
   classify ''api.sendgrid.com'' = APIRequest \<and>
   classify ''favicon.ico'' = Other"
proof -
  have 1: "isStaticAsset ''/styles.css''"
    by (simp add: isStaticAsset_def STATIC_ASSETS_def)
  have 2: "\<not> isStaticAsset ''fonts.gstatic.com'' \<and> isExternalResource ''fonts.gstatic.com''"
    by (simp add: isStaticAsset_def STATIC_ASSETS_def isExternalResource_def)
  have 3: "\<not> isStaticAsset ''api.sendgrid.com'' \<and> \<not> isExternalResource ''api.sendgrid.com''
      \<and> isAPIRequest ''api.sendgrid.com''"
    by (simp add: isStaticAsset_def STATIC_ASSETS_def isExternalResource_def isAPIRequest_def)
  have 4: "\<not> isStaticAsset ''favicon.ico'' \<and> \<not> isExternalResource ''favicon.ico''
      \<and> \<not> isAPIRequest ''favicon.ico''"
    by (simp add: isStaticAsset_def STATIC_ASSETS_def isExternalResource_def isAPIRequest_def)
  show ?thesis
    using 1 2 3 4
      classify_partition [of "''/styles.css''"]
      classify_partition [of "''fonts.gstatic.com''"]
      classify_partition [of "''api.sendgrid.com''"]
      classify_partition [of "''favicon.ico''"]
    by blast
qed

subsection \<open>Network-first\<close>

lemma caches_settle_appended:
  "caches (settle (st\<lparr>pending := pending st @ [(n, rq, r)]\<rparr>)) =
     cache_store n rq r (caches (settle st))"
  by (simp add: settle_def)




subsection \<open>Cache-first\<close>




subsection \<open>Responses that are not ok\<close>

lemma cacheFirst_stores_sample:
  "caches (snd (cacheFirst (online ok_response) page_request empty_state)) \<noteq> caches empty_state"
  "pending (snd (cacheFirst (online ok_response) page_request empty_state)) \<noteq>
     pending empty_state"
proof -
  have eq: "cacheFirst (online ok_response) page_request empty_state =
     (Some ok_response, empty_state\<lparr>cacheMisses := cacheMisses empty_state + 1,
        networkRequests := networkRequests empty_state + 1,
        caches := caches_open STATIC_CACHE (caches empty_state),
        pending := pending empty_state @ [(STATIC_CACHE, page_request, ok_response)]\<rparr>)"
    by (rule cacheFirst_miss_ok [where net = "online ok_response", OF empty_match online_resolved
          ok_ok_response])
  show "caches (snd (cacheFirst (online ok_response) page_request empty_state)) \<noteq>
      caches empty_state"
    unfolding eq snd_conv by (simp add: caches_open_def empty_state_def)
  show "pending (snd (cacheFirst (online ok_response) page_request empty_state)) \<noteq>
      pending empty_state"
    unfolding eq snd_conv by simp
qed

lemma networkFirst_stores_sample:
  "caches (snd (networkFirst (online ok_response) api_request empty_state)) \<noteq> caches empty_state"
  "pending (snd (networkFirst (online ok_response) api_request empty_state)) \<noteq>
     pending empty_state"
proof -
  have eq: "networkFirst (online ok_response) api_request empty_state =
     (Some ok_response, empty_state\<lparr>networkRequests := networkRequests empty_state + 1,
        caches := caches_open DYNAMIC_CACHE (caches empty_state),
        pending := pending empty_state @ [(DYNAMIC_CACHE, api_request, ok_response)]\<rparr>)"
    by (rule networkFirst_ok [where net = "online ok_response", OF online_resolved ok_ok_response])
  show "caches (snd (networkFirst (online ok_response) api_request empty_state)) \<noteq>
      caches empty_state"
    unfolding eq snd_conv by (simp add: caches_open_def empty_state_def)
  show "pending (snd (networkFirst (online ok_response) api_request empty_state)) \<noteq>
      pending empty_state"
    unfolding eq snd_conv by simp
qed

lemma cacheFirst_writes_only_ok:
  assumes "caches (snd (cacheFirst net rq st)) \<noteq> caches st \<or>
    pending (snd (cacheFirst net rq st)) \<noteq> pending st"
  shows "\<exists>r. net rq = Resolved r \<and> ok r"
proof (cases "originalCacheMatch (caches st) rq")
  case (Some c)
  with assms show ?thesis
    by (simp add: cacheFirst_hit [where net = net])
next
  case None
  show ?thesis
  proof (cases "net rq")
    case NetworkError
    with assms show ?thesis
      by (simp add: cacheFirst_miss_error [where net = net, OF None NetworkError]
          getOfflineFallback_keeps)
  next
    case (Resolved r')
    show ?thesis
    proof (cases "ok r'")
      case True
      with Resolved show ?thesis by simp
    next
      case False
      with assms show ?thesis
        by (simp add: cacheFirst_miss_not_ok [where net = net, OF None Resolved False])
    qed
  qed
qed

lemma networkFirst_writes_only_ok:
  assumes "caches (snd (networkFirst net rq st)) \<noteq> caches st \<or>
    pending (snd (networkFirst net rq st)) \<noteq> pending st"
  shows "\<exists>r. net rq = Resolved r \<and> ok r"
proof (cases "net rq")
  case NetworkError
  show ?thesis
  proof (cases "originalCacheMatch (caches st) rq")
    case None
    with assms show ?thesis
      by (simp add: networkFirst_error_miss [where net = net, OF NetworkError None]
          getOfflineFallback_keeps)
  next
    case (Some c)
    with assms show ?thesis
      by (simp add: networkFirst_error_hit [where net = net, OF NetworkError Some])
  qed
next
  case (Resolved r')
  show ?thesis
  proof (cases "ok r'")
    case True
    with Resolved show ?thesis by simp
  next
    case False
    with assms show ?thesis
      by (simp add: networkFirst_not_ok [where net = net, OF Resolved False])
  qed
qed

text \<open>
  C10 (only an ok response is cached). In cache-first and in network-first, the cache
  storage changes, and a write into it is started, only when the fetch resolved with an
  ok status; a response that resolved with another status is returned to the caller,
  every bucket is as it was, and no write is pending that was not before.
\<close>

theorem response_cached_only_when_ok:
  "(caches (snd (cacheFirst net rq st)) \<noteq> caches st \<longrightarrow> (\<exists>r. net rq = Resolved r \<and> ok r)) \<and>
   (caches (snd (networkFirst net rq st)) \<noteq> caches st \<longrightarrow> (\<exists>r. net rq = Resolved r \<and> ok r)) \<and>
   (originalCacheMatch (caches st) rq = None \<longrightarrow> net rq = Resolved r \<longrightarrow> \<not> ok r \<longrightarrow>
      fst (cacheFirst net rq st) = Some r \<and> caches (snd (cacheFirst net rq st)) = caches st \<and>
      pending (snd (cacheFirst net rq st)) = pending st) \<and>
   (net rq = Resolved r \<longrightarrow> \<not> ok r \<longrightarrow>
      fst (networkFirst net rq st) = Some r \<and> caches (snd (networkFirst net rq st)) = caches st \<and>
      pending (snd (networkFirst net rq st)) = pending st) \<and>
   (pending (snd (cacheFirst net rq st)) \<noteq> pending st \<longrightarrow> (\<exists>r. net rq = Resolved r \<and> ok r)) \<and>
   (pending (snd (networkFirst net rq st)) \<noteq> pending st \<longrightarrow> (\<exists>r. net rq = Resolved r \<and> ok r))"
proof (intro conjI impI)
  assume "caches (snd (cacheFirst net rq st)) \<noteq> caches st"
  then show "\<exists>r. net rq = Resolved r \<and> ok r"
    by (intro cacheFirst_writes_only_ok [where st = st] disjI1)
next
  assume "caches (snd (networkFirst net rq st)) \<noteq> caches st"
  then show "\<exists>r. net rq = Resolved r \<and> ok r"
    by (intro networkFirst_writes_only_ok [where st = st] disjI1)
next
  assume "pending (snd (cacheFirst net rq st)) \<noteq> pending st"
  then show "\<exists>r. net rq = Resolved r \<and> ok r"
    by (intro cacheFirst_writes_only_ok [where st = st] disjI2)
next
  assume "pending (snd (networkFirst net rq st)) \<noteq> pending st"
  then show "\<exists>r. net rq = Resolved r \<and> ok r"
    by (intro networkFirst_writes_only_ok [where st = st] disjI2)
next
  assume "originalCacheMatch (caches st) rq = None" "net rq = Resolved r" "\<not> ok r"
  then show "fst (cacheFirst net rq st) = Some r" "caches (snd (cacheFirst net rq st)) = caches st"
    "pending (snd (cacheFirst net rq st)) = pending st"
    by (simp_all add: cacheFirst_miss_not_ok [where net = net])
next
  assume "net rq = Resolved r" "\<not> ok r"
  then show "fst (networkFirst net rq st) = Some r"
    "caches (snd (networkFirst net rq st)) = caches st"
    "pending (snd (networkFirst net rq st)) = pending st"
    by (simp_all add: networkFirst_not_ok [where net = net])
qed

theorem response_cached_only_when_ok_witness:
  "caches (snd (cacheFirst (online ok_response) page_request empty_state)) \<noteq> caches empty_state \<and>
   (\<exists>r. online ok_response page_request = Resolved r \<and> ok r) \<and>
   caches (snd (networkFirst (online ok_response) api_request empty_state)) \<noteq> caches empty_state \<and>
   (\<exists>r. online ok_response api_request = Resolved r \<and> ok r) \<and>
   fst (cacheFirst (online error_response) page_request empty_state) = Some error_response \<and>
   caches (snd (cacheFirst (online error_response) page_request empty_state)) = caches empty_state \<and>
   pending (snd (cacheFirst (online error_response) page_request empty_state)) =
     pending empty_state \<and>
   fst (networkFirst (online error_response) api_request warm_state) = Some error_response \<and>
   caches (snd (networkFirst (online error_response) api_request warm_state)) = caches warm_state \<and>
   pending (snd (networkFirst (online error_response) api_request warm_state)) =
     pending warm_state \<and>
   pending (snd (cacheFirst (online ok_response) page_request empty_state)) \<noteq>
     pending empty_state \<and>
   pending (snd (networkFirst (online ok_response) api_request empty_state)) \<noteq>
     pending empty_state"
proof -
  note a = response_cached_only_when_ok [where net = "online ok_response" and rq = page_request
      and st = empty_state, THEN conjunct1, rule_format]
  note b = response_cached_only_when_ok [where net = "online ok_response" and rq = api_request
      and st = empty_state, THEN conjunct2, THEN conjunct1, rule_format]
  note c = response_cached_only_when_ok [where net = "online error_response"
      and rq = page_request and st = empty_state and r = error_response,
      THEN conjunct2, THEN conjunct2, THEN conjunct1, rule_format]
  note d = response_cached_only_when_ok [where net = "online error_response"
      and rq = api_request and st = warm_state and r = error_response,
      THEN conjunct2, THEN conjunct2, THEN conjunct2, THEN conjunct1, rule_format]
  have e: "originalCacheMatch (caches empty_state) page_request = None"
    by (rule empty_match)
  have n1: "online error_response page_request = Resolved error_response"
    by (rule online_resolved)
  have n2: "online error_response api_request = Resolved error_response"
    by (rule online_resolved)
  note 1 = a [OF cacheFirst_stores_sample(1)]
  note 2 = b [OF networkFirst_stores_sample(1)]
  note 3 = c [OF e n1 not_ok_error_response]
  note 4 = d [OF n2 not_ok_error_response]
  show ?thesis
    by (intro conjI)
      (rule cacheFirst_stores_sample networkFirst_stores_sample 1 2
          3 [THEN conjunct1] 3 [THEN conjunct2, THEN conjunct1] 3 [THEN conjunct2, THEN conjunct2]
          4 [THEN conjunct1] 4 [THEN conjunct2, THEN conjunct1] 4 [THEN conjunct2, THEN conjunct2])+
qed

subsection \<open>Stale-while-revalidate\<close>

text \<open>
  What the strategy does do: a response in the dynamic bucket is returned whatever the
  network does, a miss is answered by the fetch when it resolves, an ok response that
  the platform stores refreshes the dynamic bucket once the write has been carried out,
  and one fetch is made per request.
\<close>

lemma staleWhileRevalidate_cached:
  "cache_match (bucket_of DYNAMIC_CACHE (caches st)) rq = Some c \<Longrightarrow>
   fst (staleWhileRevalidate net rq st) = Some c"
  by (simp add: staleWhileRevalidate_def bucket_of_caches_open Let_def)

lemma staleWhileRevalidate_miss_resolved:
  "cache_match (bucket_of DYNAMIC_CACHE (caches st)) rq = None \<Longrightarrow> net rq = Resolved r \<Longrightarrow>
   fst (staleWhileRevalidate net rq st) = Some r"
  by (simp add: staleWhileRevalidate_def bucket_of_caches_open Let_def fetch_def)

lemma staleWhileRevalidate_miss_error:
  "cache_match (bucket_of DYNAMIC_CACHE (caches st)) rq = None \<Longrightarrow> net rq = NetworkError \<Longrightarrow>
   staleWhileRevalidate net rq st =
     (None, st\<lparr>caches := caches_open DYNAMIC_CACHE (caches st),
                networkRequests := networkRequests st + 1\<rparr>)"
  by (simp add: staleWhileRevalidate_def bucket_of_caches_open Let_def fetch_def)

lemma staleWhileRevalidate_ok_state:
  "net rq = Resolved r \<Longrightarrow> ok r \<Longrightarrow>
   snd (staleWhileRevalidate net rq st) =
     st\<lparr>caches := caches_open DYNAMIC_CACHE (caches st),
        networkRequests := networkRequests st + 1,
        pending := pending st @ [(DYNAMIC_CACHE, rq, r)]\<rparr>"
  by (simp add: staleWhileRevalidate_def Let_def fetch_def cache_put_def split: option.splits)

lemma staleWhileRevalidate_refresh:
  assumes "net rq = Resolved r" "ok r" "req_method rq = ''GET''" "storable r"
  shows "cache_match (bucket_of DYNAMIC_CACHE
      (caches (settle (snd (staleWhileRevalidate net rq st))))) rq = Some r"
proof -
  let ?opened = "st\<lparr>caches := caches_open DYNAMIC_CACHE (caches st),
      networkRequests := networkRequests st + 1\<rparr>"
  have eq: "snd (staleWhileRevalidate net rq st) =
      ?opened\<lparr>pending := pending ?opened @ [(DYNAMIC_CACHE, rq, r)]\<rparr>"
    by (simp add: staleWhileRevalidate_ok_state [where net = net, OF assms(1,2)])
  have "DYNAMIC_CACHE \<in> fst ` set (caches (settle ?opened))"
    by (simp add: names_settle names_caches_open)
  then show ?thesis
    unfolding eq caches_settle_appended by (rule cache_match_stored [OF assms(3,4)])
qed

lemma staleWhileRevalidate_one_fetch:
  "networkRequests (snd (staleWhileRevalidate net rq st)) = networkRequests st + 1"
  by (simp add: staleWhileRevalidate_def Let_def fetch_def cache_put_def
      split: option.splits fetch_result.splits)

text \<open>
  C3 (stale-while-revalidate; the offline fallback when there is no cached entry and
  the fetch fails). The handler of the failed fetch returns \<open>cachedResponse\<close>, which
  is \<open>undefined\<close> on a miss, and \<open>getOfflineFallback\<close> is never called: with
  nothing cached and no connectivity the strategy resolves with no response at all,
  where the fallback for the same request would have been the 503 response.
\<close>

theorem staleWhileRevalidate_no_fallback:
  "staleWhileRevalidate offline fonts_request empty_state =
     (None, empty_state\<lparr>caches := [(DYNAMIC_CACHE, [])], networkRequests := 1\<rparr>) \<and>
   getOfflineFallback fonts_request empty_state =
     (Some \<lparr>status = 503, headers = [], body = ''Offline''\<rparr>, empty_state)"
proof -
  have miss: "cache_match (bucket_of DYNAMIC_CACHE (caches empty_state)) fonts_request = None"
    by (simp add: empty_state_def bucket_of_def cache_match_def)
  have "staleWhileRevalidate offline fonts_request empty_state =
     (None, empty_state\<lparr>caches := caches_open DYNAMIC_CACHE (caches empty_state),
                networkRequests := networkRequests empty_state + 1\<rparr>)"
    by (rule staleWhileRevalidate_miss_error [where net = offline, OF miss offline_error])
  then have 1: "staleWhileRevalidate offline fonts_request empty_state =
     (None, empty_state\<lparr>caches := [(DYNAMIC_CACHE, [])], networkRequests := 1\<rparr>)"
    by (simp add: caches_open_def empty_state_def)
  have 2: "getOfflineFallback fonts_request empty_state =
     (Some \<lparr>status = 503, headers = [], body = ''Offline''\<rparr>, empty_state)"
    by (simp add: getOfflineFallback_def fonts_request_def)
  from 1 2 show ?thesis by (rule conjI)
qed

subsection \<open>Offline fallback\<close>

text \<open>
  What the fallback does do: an image request gets the placeholder with status 200 and
  an image content type, a request that is neither a document nor an image gets the 503
  response, and a document request gets the cached \<open>/index.html\<close> when it is there.
\<close>

lemma getOfflineFallback_image:
  "destination rq = ''image'' \<Longrightarrow>
   \<exists>r. getOfflineFallback rq st = (Some r, st) \<and> status r = 200 \<and> ok r \<and>
       map_of (headers r) ''Content-Type'' = Some ''image/svg+xml''"
  by (simp add: getOfflineFallback_def ok_def)

lemma getOfflineFallback_other:
  "destination rq \<noteq> ''document'' \<Longrightarrow> destination rq \<noteq> ''image'' \<Longrightarrow>
   getOfflineFallback rq st = (Some \<lparr>status = 503, headers = [], body = ''Offline''\<rparr>, st)"
  by (simp add: getOfflineFallback_def)

lemma getOfflineFallback_document_cached:
  "destination rq = ''document'' \<Longrightarrow> originalCacheMatch (caches st) index_request = Some c \<Longrightarrow>
   getOfflineFallback rq st = (Some c, st\<lparr>cacheHits := cacheHits st + 1\<rparr>)"
  by (simp add: getOfflineFallback_def caches_match_def)

lemma getOfflineFallback_document_missing:
  "destination rq = ''document'' \<Longrightarrow> originalCacheMatch (caches st) index_request = None \<Longrightarrow>
   getOfflineFallback rq st = (None, st\<lparr>cacheMisses := cacheMisses st + 1\<rparr>)"
  by (simp add: getOfflineFallback_def caches_match_def)

text \<open>
  C4 (the offline fallback always produces a response). For a document request the
  fallback is the result of \<open>caches.match('/index.html')\<close> and nothing else: when
  that page is not in the cache storage, the fallback, and cache-first with it, resolves
  with no response, not with an offline indicator.
\<close>

theorem getOfflineFallback_document_no_response:
  "getOfflineFallback page_request empty_state =
     (None, empty_state\<lparr>cacheMisses := 1\<rparr>) \<and>
   cacheFirst offline page_request empty_state =
     (None, empty_state\<lparr>cacheMisses := 2, networkRequests := 1\<rparr>)"
proof -
  have d: "destination page_request = ''document''"
    by (simp add: page_request_def)
  have 1: "getOfflineFallback page_request empty_state =
     (None, empty_state\<lparr>cacheMisses := 1\<rparr>)"
    using getOfflineFallback_document_missing [OF d empty_match]
    by (simp add: empty_state_def)
  have "cacheFirst offline page_request empty_state =
     getOfflineFallback page_request
       (empty_state\<lparr>cacheMisses := cacheMisses empty_state + 1,
                    networkRequests := networkRequests empty_state + 1\<rparr>)"
    by (rule cacheFirst_miss_error [where net = offline, OF empty_match offline_error])
  then have 2: "cacheFirst offline page_request empty_state =
     (None, empty_state\<lparr>cacheMisses := 2, networkRequests := 1\<rparr>)"
    by (simp add: getOfflineFallback_def d caches_match_def empty_state_def)
  from 1 2 show ?thesis by (rule conjI)
qed

subsection \<open>Replay of the queue\<close>

lemma sync_loop_requests:
  "requests (sync_loop net rs st) =
     filter (\<lambda>r. sid r \<notin> sid ` {x \<in> set rs. net x \<noteq> NetworkError}) (requests st)"
proof (induction rs arbitrary: st)
  case Nil
  then show ?case by simp
next
  case (Cons a rs)
  show ?case
  proof (cases "net a")
    case NetworkError
    then show ?thesis
      by (simp add: fetch_def Cons.IH) (rule filter_cong, auto)
  next
    case (Resolved resp)
    then show ?thesis
      by (simp add: fetch_def Cons.IH removeStoredRequest_def) (rule filter_cong, auto)
  qed
qed

lemma sync_loop_networkRequests:
  "networkRequests (sync_loop net rs st) = networkRequests st + length rs"
proof (induction rs arbitrary: st)
  case Nil
  then show ?case by simp
next
  case (Cons a rs)
  then show ?case
    by (cases "net a") (simp_all add: fetch_def removeStoredRequest_def)
qed

lemma sync_loop_caches: "caches (sync_loop net rs st) = caches st"
proof (induction rs arbitrary: st)
  case Nil
  then show ?case by simp
next
  case (Cons a rs)
  then show ?case
    by (cases "net a") (simp_all add: fetch_def removeStoredRequest_def)
qed

text \<open>
  What the replay does do, on an object store with distinct ids (its key path is
  \<open>id\<close>): afterwards the store holds exactly the entries whose \<open>fetch\<close> was
  rejected, as they were and in their order, and every entry was replayed once,
  whatever happened to the ones before it. The status of a response is never looked at.
\<close>

lemma syncContactForm_keeps_rejected:
  assumes "distinct (map sid (requests st))"
  shows "requests (syncContactForm net st) = filter (\<lambda>r. net r = NetworkError) (requests st) \<and>
    networkRequests (syncContactForm net st) = networkRequests st + length (requests st)"
proof -
  have inj: "inj_on sid (set (requests st))"
    using assms by (simp add: distinct_map)
  have "sid r \<notin> sid ` {x \<in> set (requests st). net x \<noteq> NetworkError} \<longleftrightarrow> net r = NetworkError"
    if "r \<in> set (requests st)" for r
  proof
    assume "sid r \<notin> sid ` {x \<in> set (requests st). net x \<noteq> NetworkError}"
    with that show "net r = NetworkError" by blast
  next
    assume e: "net r = NetworkError"
    show "sid r \<notin> sid ` {x \<in> set (requests st). net x \<noteq> NetworkError}"
    proof
      assume "sid r \<in> sid ` {x \<in> set (requests st). net x \<noteq> NetworkError}"
      then obtain x where x: "x \<in> set (requests st)" "net x \<noteq> NetworkError" "sid r = sid x"
        by blast
      with inj that have "r = x" by (auto dest: inj_onD)
      with e x show False by simp
    qed
  qed
  then have 1: "requests (syncContactForm net st) =
      filter (\<lambda>r. net r = NetworkError) (requests st)"
    by (simp add: syncContactForm_def getStoredRequests_def sync_loop_requests cong: filter_cong)
  have 2: "networkRequests (syncContactForm net st) = networkRequests st + length (requests st)"
    by (simp add: syncContactForm_def getStoredRequests_def sync_loop_networkRequests)
  from 1 2 show ?thesis by (rule conjI)
qed

lemma queued_distinct: "distinct (map sid (requests queued_state))"
  by (simp add: queued_state_def empty_state_def submission_abc_def submission_def_def)

lemma queued_requests: "requests queued_state = [submission_abc, submission_def]"
  by (simp add: queued_state_def empty_state_def)

lemma syncContactForm_flaky:
  "requests (syncContactForm flaky queued_state) = [submission_abc] \<and>
   networkRequests (syncContactForm flaky queued_state) = 2"
  using syncContactForm_keeps_rejected [OF queued_distinct, of flaky]
  by (simp add: queued_requests flaky_def submission_abc_def submission_def_def
      queued_state_def empty_state_def)

text \<open>
  C5 (an entry is deleted exactly when its replay succeeds, and a failed replay leaves
  it queued). The loop removes an entry whenever \<open>fetch\<close> resolves and never looks
  at the status of the response, where every other \<open>fetch\<close> of the script tests
  \<open>response.ok\<close> before it acts: with both submissions queued and a server that
  answers each replay with 500, the sync empties the queue, and the submissions are
  lost. A replay whose \<open>fetch\<close> is rejected does leave its entry, and does not stop
  the replay of the others (\<open>syncContactForm_keeps_rejected\<close>).
\<close>

theorem syncContactForm_deletes_on_error_status:
  "requests queued_state = [submission_abc, submission_def] \<and>
   online error_response submission_abc = Resolved error_response \<and>
   online error_response submission_def = Resolved error_response \<and>
   \<not> ok error_response \<and>
   requests (syncContactForm (online error_response) queued_state) = []"
proof -
  have "requests (syncContactForm (online error_response) queued_state) =
      filter (\<lambda>r. online error_response r = NetworkError) (requests queued_state)"
    using syncContactForm_keeps_rejected [OF queued_distinct, of "online error_response"]
    by (rule conjunct1)
  then have "requests (syncContactForm (online error_response) queued_state) = []"
    by (simp add: online_resolved)
  then show ?thesis
    by (simp add: queued_requests online_resolved not_ok_error_response)
qed

subsection \<open>Activation\<close>

lemma fold_caches_delete:
  "fold caches_delete ns cs = filter (\<lambda>(n, b). n \<notin> set ns) cs"
proof (induction ns arbitrary: cs)
  case Nil
  then show ?case by simp
next
  case (Cons a ns)
  have "fold caches_delete (a # ns) cs = fold caches_delete ns (caches_delete a cs)"
    by simp
  also have "\<dots> = filter (\<lambda>(n, b). n \<notin> set ns) (caches_delete a cs)"
    by (rule Cons.IH)
  also have "\<dots> = filter (\<lambda>(n, b). n \<notin> set (a # ns)) cs"
    unfolding caches_delete_def filter_filter by (rule filter_cong) auto
  finally show ?case .
qed

text \<open>
  C8 (activation deletes the buckets of other versions and then claims the clients).
  After activation the storage holds exactly the buckets named \<open>STATIC_CACHE\<close> or
  \<open>DYNAMIC_CACHE\<close>, with their entries and in their order; a deletion is asked for
  exactly the names in the storage that are neither; and \<open>clients.claim\<close> is the
  last thing asked, once, after every deletion.
\<close>

theorem activate_deletes_old_buckets:
  "fst (activate cs) = filter (\<lambda>(n, b). n = STATIC_CACHE \<or> n = DYNAMIC_CACHE) cs \<and>
   (CachesDelete n \<in> set (snd (activate cs)) \<longleftrightarrow>
      n \<in> fst ` set cs \<and> n \<noteq> STATIC_CACHE \<and> n \<noteq> DYNAMIC_CACHE) \<and>
   last (snd (activate cs)) = ClientsClaim \<and>
   ClientsClaim \<notin> set (butlast (snd (activate cs)))"
proof -
  have name: "n \<in> fst ` set cs" if "(n, b) \<in> set cs" for n b
    using that by force
  have 1: "fst (activate cs) = filter (\<lambda>(n, b). n = STATIC_CACHE \<or> n = DYNAMIC_CACHE) cs"
    by (simp add: activate_def Let_def fold_caches_delete) (rule filter_cong, auto dest: name)
  have 2: "CachesDelete n \<in> set (snd (activate cs)) \<longleftrightarrow>
      n \<in> fst ` set cs \<and> n \<noteq> STATIC_CACHE \<and> n \<noteq> DYNAMIC_CACHE"
    by (auto simp: activate_def Let_def)
  have 3: "last (snd (activate cs)) = ClientsClaim"
    by (simp add: activate_def Let_def)
  have 4: "ClientsClaim \<notin> set (butlast (snd (activate cs)))"
    by (auto simp: activate_def Let_def)
  from 1 2 3 4 show ?thesis by blast
qed

theorem activate_deletes_old_buckets_witness:
  "fst (activate old_storage) =
     [(STATIC_CACHE, [(''/index.html'', ok_response)]), (DYNAMIC_CACHE, [])] \<and>
   CachesDelete ''static-v1'' \<in> set (snd (activate old_storage)) \<and>
   last (snd (activate old_storage)) = ClientsClaim \<and>
   ClientsClaim \<notin> set (butlast (snd (activate old_storage)))"
proof -
  note t = activate_deletes_old_buckets [where cs = old_storage and n = "''static-v1''"]
  have 1: "fst (activate old_storage) =
     [(STATIC_CACHE, [(''/index.html'', ok_response)]), (DYNAMIC_CACHE, [])]"
    using t [THEN conjunct1] by (simp add: old_storage_def STATIC_CACHE_def DYNAMIC_CACHE_def)
  have m: "''static-v1'' \<in> fst ` set old_storage \<and> ''static-v1'' \<noteq> STATIC_CACHE \<and>
      ''static-v1'' \<noteq> DYNAMIC_CACHE"
    by (simp add: old_storage_def STATIC_CACHE_def DYNAMIC_CACHE_def)
  have 2: "CachesDelete ''static-v1'' \<in> set (snd (activate old_storage))"
    using t [THEN conjunct2, THEN conjunct1] m by blast
  from 1 2 t [THEN conjunct2, THEN conjunct2] show ?thesis by blast
qed

subsection \<open>Installation\<close>

lemma filter_cache_store:
  "\<not> P name \<Longrightarrow>
   filter (\<lambda>(n, b). P n) (cache_store name rq r cs) = filter (\<lambda>(n, b). P n) cs"
  by (induction cs) (auto simp: cache_store_def split: if_splits)

lemma filter_caches_open:
  "\<not> P name \<Longrightarrow>
   filter (\<lambda>(n, b). P n) (caches_open name cs) = filter (\<lambda>(n, b). P n) cs"
  by (simp add: caches_open_def)

lemma filter_put_all:
  "\<not> P name \<Longrightarrow>
   filter (\<lambda>(n, b). P n) (put_all net name us cs) = filter (\<lambda>(n, b). P n) cs"
proof (induction us arbitrary: cs)
  case Nil
  then show ?case by simp
next
  case (Cons u us)
  then show ?case
    by (cases "net (url_request u)") (simp_all add: filter_cache_store)
qed

lemma names_put_all: "fst ` set (put_all net name us cs) = fst ` set cs"
proof (induction us arbitrary: cs)
  case Nil
  then show ?case by simp
next
  case (Cons u us)
  then show ?case
    by (cases "net (url_request u)") (simp_all add: names_cache_store)
qed

lemma names_caches_open_mono: "n \<in> fst ` set cs \<Longrightarrow> n \<in> fst ` set (caches_open m cs)"
  by (auto simp: caches_open_def)

lemma bucket_of_put_all_other:
  "n \<noteq> name \<Longrightarrow> bucket_of name (put_all net n us cs) = bucket_of name cs"
proof (induction us arbitrary: cs)
  case Nil
  then show ?case by simp
next
  case (Cons u us)
  then show ?case
    by (cases "net (url_request u)") (simp_all add: bucket_of_cache_store_other)
qed

lemma url_request_get: "req_method (url_request u) = ''GET''" "url (url_request u) = u"
  by (simp_all add: url_request_def)

lemma map_of_put_all:
  "name \<in> fst ` set cs \<Longrightarrow>
   map_of (bucket_of name (put_all net name us cs)) u =
     (case (if u \<in> set us then net (url_request u) else NetworkError) of
        Resolved r \<Rightarrow> if storable r then Some r else map_of (bucket_of name cs) u
      | NetworkError \<Rightarrow> map_of (bucket_of name cs) u)"
proof (induction us arbitrary: cs)
  case Nil
  then show ?case by simp
next
  case (Cons a us)
  show ?case
  proof (cases "net (url_request a)")
    case NetworkError
    with Cons show ?thesis by auto
  next
    case (Resolved r)
    have names: "name \<in> fst ` set (cache_store name (url_request a) r cs)"
      using Cons.prems by (simp add: names_cache_store)
    have b: "map_of (bucket_of name (cache_store name (url_request a) r cs)) u =
        (if u = a \<and> storable r then Some r else map_of (bucket_of name cs) u)"
    proof (cases "storable r")
      case True
      with Cons.prems show ?thesis
        by (simp add: bucket_of_cache_store url_request_get update_conv')
    next
      case False
      then show ?thesis by (simp add: cache_store_refused)
    qed
    show ?thesis
      using Resolved Cons.IH [OF names] b
      by (auto split: fetch_result.splits)
  qed
qed

lemma cache_addAll_stored:
  assumes "name \<in> fst ` set cs" "list_all (reachable net) us" "u \<in> set us"
  shows "\<exists>r. net (url_request u) = Resolved r \<and> ok r \<and>
    cache_match (bucket_of name (put_all net name us cs)) (url_request u) = Some r"
proof -
  from assms(2,3) have "reachable net u"
    by (simp add: list_all_iff)
  then obtain r where r: "net (url_request u) = Resolved r" "ok r" "storable r"
    by (auto simp: reachable_def split: fetch_result.splits)
  with assms(1,3) show ?thesis
    by (simp add: cache_match_def url_request_get map_of_put_all)
qed

lemma names_differ: "STATIC_CACHE \<noteq> DYNAMIC_CACHE"
  by (simp add: STATIC_CACHE_def DYNAMIC_CACHE_def)

text \<open>The storage an install leaves, and its two buckets.\<close>

lemma install_outcome:
  "snd (install net cs) =
     (list_all (reachable net) STATIC_ASSETS \<and> list_all (reachable net) EXTERNAL_RESOURCES,
      if list_all (reachable net) STATIC_ASSETS \<and> list_all (reachable net) EXTERNAL_RESOURCES
      then [SkipWaiting] else [])"
  by (simp add: install_def cache_addAll_def)

lemma install_static_bucket:
  "bucket_of STATIC_CACHE (fst (install net cs)) =
     (if list_all (reachable net) STATIC_ASSETS
      then bucket_of STATIC_CACHE
             (put_all net STATIC_CACHE STATIC_ASSETS (caches_open STATIC_CACHE cs))
      else bucket_of STATIC_CACHE cs)"
  using names_differ [symmetric]
  by (simp add: install_def cache_addAll_def bucket_of_put_all_other bucket_of_caches_open)

lemma install_dynamic_bucket:
  "bucket_of DYNAMIC_CACHE (fst (install net cs)) =
     (if list_all (reachable net) EXTERNAL_RESOURCES
      then bucket_of DYNAMIC_CACHE
             (put_all net DYNAMIC_CACHE EXTERNAL_RESOURCES
                (caches_open DYNAMIC_CACHE
                   (snd (cache_addAll net STATIC_CACHE STATIC_ASSETS
                          (caches_open STATIC_CACHE cs)))))
      else bucket_of DYNAMIC_CACHE cs)"
  using names_differ
  by (simp add: install_def cache_addAll_def bucket_of_put_all_other bucket_of_caches_open)

lemma install_names:
  "STATIC_CACHE \<in> fst ` set (fst (install net cs))"
  "DYNAMIC_CACHE \<in> fst ` set (fst (install net cs))"
  by (simp_all add: install_def cache_addAll_def names_put_all names_caches_open
      names_caches_open_mono)

lemma install_other_buckets:
  "filter (\<lambda>(n, b). n \<noteq> STATIC_CACHE \<and> n \<noteq> DYNAMIC_CACHE) (fst (install net cs)) =
   filter (\<lambda>(n, b). n \<noteq> STATIC_CACHE \<and> n \<noteq> DYNAMIC_CACHE) cs"
  by (simp add: install_def cache_addAll_def filter_put_all filter_caches_open)

lemma online_reaches: "list_all (reachable (online ok_response)) us"
  by (simp add: list_all_iff reachable_def online_def ok_ok_response storable_ok_response)

lemma offline_reaches_nothing:
  "\<not> list_all (reachable offline) STATIC_ASSETS"
  "\<not> list_all (reachable offline) EXTERNAL_RESOURCES"
  by (simp_all add: STATIC_ASSETS_def EXTERNAL_RESOURCES_def reachable_def offline_def)

lemma missing_manifest_reaches:
  "\<not> list_all (reachable missing_manifest) STATIC_ASSETS"
  "list_all (reachable missing_manifest) EXTERNAL_RESOURCES"
  by (simp_all add: STATIC_ASSETS_def EXTERNAL_RESOURCES_def reachable_def missing_manifest_def
      url_request_def not_found_response_def ok_def ok_response_def storable_def vary_star_def)

text \<open>
  C9, as the claim has it, fails: a failed installation is not undone. The two
  \<open>addAll\<close> calls are independent, so when \<open>/manifest.json\<close> is answered with
  404 and everything else is found, the install promise is rejected and
  \<open>skipWaiting\<close> is not called, but the static bucket has been created and the
  dynamic bucket has been created and filled.
\<close>

theorem install_not_atomic_counterexample:
  "\<not> reachable missing_manifest ''/manifest.json'' \<and>
   snd (install missing_manifest []) = (False, []) \<and>
   fst (install missing_manifest []) =
     [(STATIC_CACHE, []),
      (DYNAMIC_CACHE, map (\<lambda>u. (u, ok_response)) EXTERNAL_RESOURCES)]"
proof -
  have 1: "\<not> reachable missing_manifest ''/manifest.json''"
    by (simp add: reachable_def missing_manifest_def url_request_def not_found_response_def
        ok_def)
  have 2: "snd (install missing_manifest []) = (False, [])"
    by (simp add: install_outcome missing_manifest_reaches)
  have 3: "fst (install missing_manifest []) =
     [(STATIC_CACHE, []),
      (DYNAMIC_CACHE, map (\<lambda>u. (u, ok_response)) EXTERNAL_RESOURCES)]"
    using names_differ
    by (simp add: install_def cache_addAll_def missing_manifest_reaches caches_open_def)
      (simp add: EXTERNAL_RESOURCES_def missing_manifest_def url_request_def cache_store_def
        storable_ok_response)
  show ?thesis
    by (intro conjI) (rule 1 2 3)+
qed

text \<open>
  C9, amended. Installation opens the static and the dynamic bucket and fills each from
  its own list, all or nothing for each bucket by itself: when every entry of a bucket's
  list is fetched with an ok status and a response the platform stores, each entry is in
  that bucket with the response fetched for it, and otherwise the bucket's entries are
  as they were. When every entry of both lists is fetched, the promise given to
  \<open>waitUntil\<close> is fulfilled, \<open>skipWaiting\<close> is called and the new version
  becomes the active one. When some entry is not, the promise is rejected and
  \<open>skipWaiting\<close> is not called: the registration is as it was, with the earlier
  version still active, and the storage is left as the install made it. In either case
  both buckets exist afterwards and every bucket of another name is as it was.
\<close>

theorem install_per_bucket:
  "(list_all (reachable net) STATIC_ASSETS \<and> list_all (reachable net) EXTERNAL_RESOURCES \<longrightarrow>
      snd (install net cs) = (True, [SkipWaiting]) \<and>
      install_event net version reg cs =
        (reg\<lparr>waiting := None, active := Some version\<rparr>, fst (activate (fst (install net cs))))) \<and>
   (\<not> (list_all (reachable net) STATIC_ASSETS \<and> list_all (reachable net) EXTERNAL_RESOURCES) \<longrightarrow>
      snd (install net cs) = (False, []) \<and>
      install_event net version reg cs = (reg, fst (install net cs))) \<and>
   (list_all (reachable net) STATIC_ASSETS \<longrightarrow> u \<in> set STATIC_ASSETS \<longrightarrow>
      (\<exists>r. net (url_request u) = Resolved r \<and> ok r \<and>
           cache_match (bucket_of STATIC_CACHE (fst (install net cs))) (url_request u) = Some r)) \<and>
   (\<not> list_all (reachable net) STATIC_ASSETS \<longrightarrow>
      bucket_of STATIC_CACHE (fst (install net cs)) = bucket_of STATIC_CACHE cs) \<and>
   (list_all (reachable net) EXTERNAL_RESOURCES \<longrightarrow> u \<in> set EXTERNAL_RESOURCES \<longrightarrow>
      (\<exists>r. net (url_request u) = Resolved r \<and> ok r \<and>
           cache_match (bucket_of DYNAMIC_CACHE (fst (install net cs))) (url_request u) = Some r)) \<and>
   (\<not> list_all (reachable net) EXTERNAL_RESOURCES \<longrightarrow>
      bucket_of DYNAMIC_CACHE (fst (install net cs)) = bucket_of DYNAMIC_CACHE cs) \<and>
   STATIC_CACHE \<in> fst ` set (fst (install net cs)) \<and>
   DYNAMIC_CACHE \<in> fst ` set (fst (install net cs)) \<and>
   filter (\<lambda>(n, b). n \<noteq> STATIC_CACHE \<and> n \<noteq> DYNAMIC_CACHE) (fst (install net cs)) =
     filter (\<lambda>(n, b). n \<noteq> STATIC_CACHE \<and> n \<noteq> DYNAMIC_CACHE) cs"
proof -
  obtain cs' where i: "install net cs = (cs', snd (install net cs))"
    by (cases "install net cs") simp
  have cs': "cs' = fst (install net cs)"
    using i by (metis fst_conv)
  have success:
    "list_all (reachable net) STATIC_ASSETS \<and> list_all (reachable net) EXTERNAL_RESOURCES \<longrightarrow>
      snd (install net cs) = (True, [SkipWaiting]) \<and>
      install_event net version reg cs =
        (reg\<lparr>waiting := None, active := Some version\<rparr>, fst (activate (fst (install net cs))))"
  proof (rule impI)
    assume all: "list_all (reachable net) STATIC_ASSETS \<and>
        list_all (reachable net) EXTERNAL_RESOURCES"
    have o: "snd (install net cs) = (True, [SkipWaiting])"
      using all by (simp add: install_outcome)
    have "install net cs = (cs', True, [SkipWaiting])"
      using i o by simp
    then have "install_event net version reg cs =
        (reg\<lparr>waiting := None, active := Some version\<rparr>, fst (activate cs'))"
      by (simp add: install_event_def)
    with o cs' show "snd (install net cs) = (True, [SkipWaiting]) \<and>
      install_event net version reg cs =
        (reg\<lparr>waiting := None, active := Some version\<rparr>, fst (activate (fst (install net cs))))"
      by simp
  qed
  have failure:
    "\<not> (list_all (reachable net) STATIC_ASSETS \<and> list_all (reachable net) EXTERNAL_RESOURCES) \<longrightarrow>
      snd (install net cs) = (False, []) \<and>
      install_event net version reg cs = (reg, fst (install net cs))"
  proof (rule impI)
    assume some: "\<not> (list_all (reachable net) STATIC_ASSETS \<and>
        list_all (reachable net) EXTERNAL_RESOURCES)"
    have o: "snd (install net cs) = (False, [])"
      using some by (simp add: install_outcome)
    have "install net cs = (cs', False, [])"
      using i o by simp
    then have "install_event net version reg cs = (reg, cs')"
      by (simp add: install_event_def)
    with o cs' show "snd (install net cs) = (False, []) \<and>
      install_event net version reg cs = (reg, fst (install net cs))"
      by simp
  qed
  have static: "list_all (reachable net) STATIC_ASSETS \<longrightarrow> u \<in> set STATIC_ASSETS \<longrightarrow>
      (\<exists>r. net (url_request u) = Resolved r \<and> ok r \<and>
           cache_match (bucket_of STATIC_CACHE (fst (install net cs))) (url_request u) = Some r)"
  proof (intro impI)
    assume a: "list_all (reachable net) STATIC_ASSETS" and u: "u \<in> set STATIC_ASSETS"
    show "\<exists>r. net (url_request u) = Resolved r \<and> ok r \<and>
        cache_match (bucket_of STATIC_CACHE (fst (install net cs))) (url_request u) = Some r"
      using cache_addAll_stored [OF names_caches_open a u] a
      by (simp add: install_static_bucket)
  qed
  have static_kept: "\<not> list_all (reachable net) STATIC_ASSETS \<longrightarrow>
      bucket_of STATIC_CACHE (fst (install net cs)) = bucket_of STATIC_CACHE cs"
    by (simp add: install_static_bucket)
  have dynamic: "list_all (reachable net) EXTERNAL_RESOURCES \<longrightarrow> u \<in> set EXTERNAL_RESOURCES \<longrightarrow>
      (\<exists>r. net (url_request u) = Resolved r \<and> ok r \<and>
           cache_match (bucket_of DYNAMIC_CACHE (fst (install net cs))) (url_request u) = Some r)"
  proof (intro impI)
    assume a: "list_all (reachable net) EXTERNAL_RESOURCES" and u: "u \<in> set EXTERNAL_RESOURCES"
    show "\<exists>r. net (url_request u) = Resolved r \<and> ok r \<and>
        cache_match (bucket_of DYNAMIC_CACHE (fst (install net cs))) (url_request u) = Some r"
      using cache_addAll_stored [OF names_caches_open a u] a
      by (simp add: install_dynamic_bucket)
  qed
  have dynamic_kept: "\<not> list_all (reachable net) EXTERNAL_RESOURCES \<longrightarrow>
      bucket_of DYNAMIC_CACHE (fst (install net cs)) = bucket_of DYNAMIC_CACHE cs"
    by (simp add: install_dynamic_bucket)
  show ?thesis
    by (intro conjI)
      (rule success failure static static_kept dynamic dynamic_kept install_names
          install_other_buckets)+
qed

theorem install_per_bucket_witness:
  "snd (install (online ok_response) old_storage) = (True, [SkipWaiting]) \<and>
   install_event (online ok_response) ''v2'' old_registration old_storage =
     (old_registration\<lparr>waiting := None, active := Some ''v2''\<rparr>,
      fst (activate (fst (install (online ok_response) old_storage)))) \<and>
   cache_match (bucket_of STATIC_CACHE (fst (install (online ok_response) old_storage)))
     (url_request ''/styles.css'') = Some ok_response \<and>
   snd (install offline old_storage) = (False, []) \<and>
   install_event offline ''v2'' old_registration old_storage =
     (old_registration, fst (install offline old_storage)) \<and>
   bucket_of STATIC_CACHE (fst (install offline old_storage)) =
     bucket_of STATIC_CACHE old_storage \<and>
   bucket_of DYNAMIC_CACHE (fst (install offline old_storage)) =
     bucket_of DYNAMIC_CACHE old_storage \<and>
   bucket_of STATIC_CACHE (fst (install missing_manifest old_storage)) =
     bucket_of STATIC_CACHE old_storage \<and>
   cache_match (bucket_of DYNAMIC_CACHE (fst (install missing_manifest old_storage)))
     (url_request (hd EXTERNAL_RESOURCES)) = Some ok_response"
proof -
  have both: "list_all (reachable (online ok_response)) STATIC_ASSETS \<and>
      list_all (reachable (online ok_response)) EXTERNAL_RESOURCES"
    by (simp add: online_reaches)
  have neither: "\<not> (list_all (reachable offline) STATIC_ASSETS \<and>
      list_all (reachable offline) EXTERNAL_RESOURCES)"
    by (simp add: offline_reaches_nothing)
  have u1: "''/styles.css'' \<in> set STATIC_ASSETS"
    by (simp add: STATIC_ASSETS_def)
  have u2: "hd EXTERNAL_RESOURCES \<in> set EXTERNAL_RESOURCES"
    by (simp add: EXTERNAL_RESOURCES_def)
  note on = install_per_bucket [where net = "online ok_response" and cs = old_storage
      and u = "''/styles.css''" and version = "''v2''" and reg = old_registration]
  note off = install_per_bucket [where net = offline and cs = old_storage
      and version = "''v2''" and reg = old_registration]
  note mixed = install_per_bucket [where net = missing_manifest and cs = old_storage
      and u = "hd EXTERNAL_RESOURCES"]
  note s = on [THEN conjunct1, rule_format, OF both]
  note f = off [THEN conjunct2, THEN conjunct1, rule_format, OF neither]
  have 3: "cache_match (bucket_of STATIC_CACHE (fst (install (online ok_response) old_storage)))
     (url_request ''/styles.css'') = Some ok_response"
  proof -
    from on [THEN conjunct2, THEN conjunct2, THEN conjunct1, rule_format,
        OF both [THEN conjunct1] u1]
    obtain r where r: "online ok_response (url_request ''/styles.css'') = Resolved r"
      "cache_match (bucket_of STATIC_CACHE (fst (install (online ok_response) old_storage)))
         (url_request ''/styles.css'') = Some r"
      by blast
    from r(1) have "r = ok_response" by (simp add: online_resolved)
    with r(2) show ?thesis by simp
  qed
  note 6 = off [THEN conjunct2, THEN conjunct2, THEN conjunct2, THEN conjunct1, rule_format,
      OF offline_reaches_nothing(1)]
  note 7 = off [THEN conjunct2, THEN conjunct2, THEN conjunct2, THEN conjunct2, THEN conjunct2,
      THEN conjunct1, rule_format, OF offline_reaches_nothing(2)]
  note 8 = mixed [THEN conjunct2, THEN conjunct2, THEN conjunct2, THEN conjunct1, rule_format,
      OF missing_manifest_reaches(1)]
  have 9: "cache_match (bucket_of DYNAMIC_CACHE (fst (install missing_manifest old_storage)))
     (url_request (hd EXTERNAL_RESOURCES)) = Some ok_response"
  proof -
    from mixed [THEN conjunct2, THEN conjunct2, THEN conjunct2, THEN conjunct2, THEN conjunct1,
        rule_format, OF missing_manifest_reaches(2) u2]
    obtain r where r: "missing_manifest (url_request (hd EXTERNAL_RESOURCES)) = Resolved r"
      "cache_match (bucket_of DYNAMIC_CACHE (fst (install missing_manifest old_storage)))
         (url_request (hd EXTERNAL_RESOURCES)) = Some r"
      by blast
    from r(1) have "r = ok_response"
      by (simp add: missing_manifest_def url_request_def EXTERNAL_RESOURCES_def)
    with r(2) show ?thesis by simp
  qed
  show ?thesis
    by (intro conjI)
      (rule s [THEN conjunct1] s [THEN conjunct2] 3 f [THEN conjunct1] f [THEN conjunct2]
          6 7 8 9)+
qed

end
